theory Spec2Isabelle
  imports Main
begin

section \<open>Data model\<close>

text \<open>
  Timestamps are the millisecond counts that \<^verbatim>\<open>Date.getTime()\<close> yields; every operation
  that calls \<^verbatim>\<open>new Date()\<close> takes the clock reading \<open>now\<close> as an argument (the readings
  taken within one call are taken to be equal). Rendering (\<^verbatim>\<open>triggerRender\<close>), direct messages and extension callbacks are
  external I/O that is assumed to succeed; only \<^verbatim>\<open>announceToStudentsInQueue\<close>, whose
  result is the set of messages sent, returns them.
\<close>

type_synonym time = int

text \<open>
  A discord.js \<^verbatim>\<open>GuildMember\<close>, reduced to what the code reads: \<^verbatim>\<open>id\<close>,
  \<^verbatim>\<open>displayName\<close>, \<^verbatim>\<open>roles.cache\<close> (a collection keyed by role id, each role
  with a name) and \<^verbatim>\<open>voice.channel\<close> (null when the member is in no voice channel).
\<close>

record GuildMember =
  memberId :: string
  displayName :: string
  roles :: "(string \<times> string) list"
  voiceChannel :: "string option"

text \<open>
  A \<^verbatim>\<open>Helpee\<close> is a JavaScript object: the caller of \<^verbatim>\<open>enqueue\<close> hands it over and
  the waiting array holds a reference to it. \<open>objId\<close> is the identity of the object.
  Entries with the same \<open>objId\<close> are one and the same object, so an assignment to a
  field of the object shows in each of them.
\<close>

record Helpee =
  objId :: string
  waitStart :: time
  member :: GuildMember

text \<open>
  \<^verbatim>\<open>Helper\<close> has an optional \<^verbatim>\<open>helpEnd\<close>; \<^verbatim>\<open>Required<Helper>\<close> is the same
  object type with \<^verbatim>\<open>helpEnd\<close> present. The record is parametric in the type of that
  field, as the TypeScript type is.
\<close>

record 'e HelperOf =
  helpStart :: time
  helpEnd :: 'e
  helpedMembers :: "GuildMember list"
  member :: GuildMember

type_synonym Helper = "time option HelperOf"
type_synonym Required_Helper = "time HelperOf"

text \<open>
  \<^verbatim>\<open>QueueError(message, queueName)\<close> and \<^verbatim>\<open>ServerError(message)\<close> of
  \<^verbatim>\<open>utils/error-types\<close>; \<open>TypeError\<close> is the JavaScript runtime's own.
\<close>

datatype error =
    QueueError string string
  | ServerError string
  | TypeError string

text \<open>
  The state of one \<^verbatim>\<open>HelpQueueV2\<close>. \<open>queueName\<close> is \<^verbatim>\<open>queueChannel.queueName\<close>.
  \<open>helpers\<close> is the collection of \<^verbatim>\<open>Helper\<close> objects, keyed by the identity under
  which \<^verbatim>\<open>helpers.has\<close> finds them (the object itself in \<^verbatim>\<open>help-queue.ts\<close>, the
  member id in the calls of \<^verbatim>\<open>AttendingServerV2\<close>). \<open>students\<close> is the waiting
  array, head first.
\<close>

record HelpQueueV2 =
  queueName :: string
  helpers :: "string \<rightharpoonup> Helper"
  students :: "Helpee list"
  isOpen :: bool

text \<open>
  An operation returns its outcome together with the state it leaves behind, so that a
  mutation made before a \<^verbatim>\<open>throw\<close> would be visible.
\<close>

type_synonym 'a queue_result = "(error + 'a) \<times> HelpQueueV2"

section \<open>The queue engine (\<^verbatim>\<open>help-queue.ts\<close>)\<close>

text \<open>
  The methods of \<^verbatim>\<open>HelpQueueV2\<close> as \<^verbatim>\<open>help-queue.ts\<close> has them: check, throw
  or mutate, then render. \<open>enqueue\<close> assigns \<^verbatim>\<open>student.waitStart\<close> on the object it
  is given and pushes that same object: when the object is already in the waiting array,
  its earlier entries show the new stamp too. The state returned is this queue's; a
  reference to the object held elsewhere is not part of it. \<open>dequeue\<close> is given the
  \<^verbatim>\<open>Helper\<close> object, here the key under which the helper set holds it.
\<close>

definition length_students :: "HelpQueueV2 \<Rightarrow> nat" where
  "length_students q = length (students q)"

definition first :: "HelpQueueV2 \<Rightarrow> Helpee option" where
  "first q = (case students q of [] \<Rightarrow> None | s # _ \<Rightarrow> Some s)"

definition openQueue :: "time \<Rightarrow> HelpQueueV2 \<Rightarrow> unit queue_result" where
  "openQueue now q =
     (if isOpen q then (Inl (QueueError ''The queue is already open.'' (queueName q)), q)
      else (Inr (),
            q\<lparr>isOpen := True,
              helpers := (\<lambda>k. map_option (\<lambda>helper. helper\<lparr>helpStart := now\<rparr>) (helpers q k))\<rparr>))"

definition closeQueue :: "time \<Rightarrow> HelpQueueV2 \<Rightarrow> unit queue_result" where
  "closeQueue now q =
     (if isOpen q then (Inl (QueueError ''You are not currently hosting.'' (queueName q)), q)
      else (Inr (),
            q\<lparr>isOpen := False,
              helpers := (\<lambda>k. map_option (\<lambda>helper. helper\<lparr>helpEnd := Some now\<rparr>) (helpers q k))\<rparr>))"

definition enqueue :: "time \<Rightarrow> Helpee \<Rightarrow> HelpQueueV2 \<Rightarrow> unit queue_result" where
  "enqueue now student q =
     (if \<not> isOpen q
      then (Inl (QueueError (''Queue '' @ queueName q @ '' is not open.'') (queueName q)), q)
      else (Inr (),
            q\<lparr>students :=
                map (\<lambda>s. if objId s = objId student then s\<lparr>waitStart := now\<rparr> else s)
                  (students q) @
                [student\<lparr>waitStart := now\<rparr>]\<rparr>))"

definition dequeue :: "string \<Rightarrow> HelpQueueV2 \<Rightarrow> unit queue_result" where
  "dequeue helper q =
     (case helpers q helper of
        None \<Rightarrow>
          (Inl (QueueError ''You don't have permission to help this queue'' (queueName q)), q)
      | Some h \<Rightarrow>
          (case students q of
             [] \<Rightarrow> (Inl (QueueError ''There's no one in the queue'' (queueName q)), q)
           | firstStudent # rest \<Rightarrow>
               (Inr (),
                q\<lparr>students := rest,
                  helpers := (helpers q)(helper \<mapsto>
                    h\<lparr>helpedMembers := helpedMembers h @ [Helpee.member firstStudent]\<rparr>)\<rparr>)))"


section \<open>Queue methods called by the server\<close>

text \<open>
  \<^verbatim>\<open>AttendingServerV2\<close> calls \<^verbatim>\<open>openQueue(helperMember)\<close>,
  \<^verbatim>\<open>closeQueue(helperMember)\<close> and \<^verbatim>\<open>dequeueWithHelper(helperMember)\<close>, and finds
  helpers with \<^verbatim>\<open>helpers.has(helperMember.id)\<close>. These per-helper methods are not in
  \<^verbatim>\<open>help-queue.ts\<close>, which has the forms without a helper argument above.
\<close>

text \<open>
  Modelled from the spec: \<^verbatim>\<open>HelpQueueV2.openQueue(helperMember)\<close>, the per-helper form
  called by \<^verbatim>\<open>openAllOpenableQueues\<close>. "open fails with AlreadyOpen if already Open;
  on success it stamps helpStart = now for the opening helper and adds it to the
  authorized-helper set if absent".
\<close>

definition openQueue_helper :: "time \<Rightarrow> GuildMember \<Rightarrow> HelpQueueV2 \<Rightarrow> unit queue_result" where
  "openQueue_helper now helperMember q =
     (if isOpen q then (Inl (QueueError ''The queue is already open.'' (queueName q)), q)
      else (Inr (),
            q\<lparr>isOpen := True,
              helpers := (helpers q)(memberId helperMember \<mapsto>
                (case helpers q (memberId helperMember) of
                   None \<Rightarrow> \<lparr>helpStart = now, helpEnd = None, helpedMembers = [],
                             member = helperMember\<rparr>
                 | Some helper \<Rightarrow> helper\<lparr>helpStart := now\<rparr>))\<rparr>))"

text \<open>
  Modelled from the spec: \<^verbatim>\<open>HelpQueueV2.closeQueue(helperMember)\<close>, the per-helper form
  called by \<^verbatim>\<open>closeAllClosableQueues\<close>. "close fails with NotHosting if the given
  helper is not in the authorized set or the queue is not Open; on success it stamps that
  helper's helpEnd = now and returns the closed helper's session (start/end/served-list)".
\<close>

definition closeQueue_helper ::
  "time \<Rightarrow> GuildMember \<Rightarrow> HelpQueueV2 \<Rightarrow> Required_Helper queue_result" where
  "closeQueue_helper now helperMember q =
     (case helpers q (memberId helperMember) of
        None \<Rightarrow> (Inl (QueueError ''You are not currently hosting.'' (queueName q)), q)
      | Some helper \<Rightarrow>
          if \<not> isOpen q
          then (Inl (QueueError ''You are not currently hosting.'' (queueName q)), q)
          else (Inr \<lparr>helpStart = helpStart helper, helpEnd = now,
                      helpedMembers = helpedMembers helper, member = HelperOf.member helper\<rparr>,
                q\<lparr>isOpen := False,
                  helpers := (helpers q)(memberId helperMember \<mapsto>
                    helper\<lparr>helpEnd := Some now\<rparr>)\<rparr>))"

text \<open>
  Modelled from the spec: \<^verbatim>\<open>HelpQueueV2.dequeueWithHelper(helperMember)\<close>, called by
  \<^verbatim>\<open>dequeueFirst\<close>. "dequeueNext(helper) fails with NotAuthorized if helper is not in
  the queue's authorized set, Empty if the waiting list is empty; otherwise removes and
  returns the head requester, appends it to the helper's served list". It is \<open>dequeue\<close>
  with the helper found by member id and the removed student returned.
\<close>

definition dequeueWithHelper :: "GuildMember \<Rightarrow> HelpQueueV2 \<Rightarrow> Helpee queue_result" where
  "dequeueWithHelper helperMember q =
     (case helpers q (memberId helperMember) of
        None \<Rightarrow>
          (Inl (QueueError ''You don't have permission to help this queue'' (queueName q)), q)
      | Some h \<Rightarrow>
          (case students q of
             [] \<Rightarrow> (Inl (QueueError ''There's no one in the queue'' (queueName q)), q)
           | firstStudent # rest \<Rightarrow>
               (Inr firstStudent,
                q\<lparr>students := rest,
                  helpers := (helpers q)(memberId helperMember \<mapsto>
                    h\<lparr>helpedMembers := helpedMembers h @ [Helpee.member firstStudent]\<rparr>)\<rparr>)))"

section \<open>The server orchestrator (\<^verbatim>\<open>AttendingServerV2\<close>)\<close>

record AttendingServerV2 =
  queues :: "HelpQueueV2 list"

type_synonym 'a server_result = "(error + 'a) \<times> AttendingServerV2"

text \<open>
  \<^verbatim>\<open>Array.prototype.reduce\<close> without an initial value: the first element starts the
  accumulator, and an empty array is a \<^verbatim>\<open>TypeError\<close>.
\<close>

definition reduce :: "('a \<Rightarrow> 'a \<Rightarrow> 'a) \<Rightarrow> 'a list \<Rightarrow> error + 'a" where
  "reduce f xs =
     (case xs of
        [] \<Rightarrow> Inl (TypeError ''Reduce of empty array with no initial value'')
      | x # rest \<Rightarrow> Inr (foldl f x rest))"

text \<open>
  The queues are objects: \<^verbatim>\<open>filter\<close> and \<^verbatim>\<open>reduce\<close> hand on references, and the
  dequeue mutates the selected object inside \<^verbatim>\<open>this.queues\<close>. The model carries each
  queue with its position in the array and writes the mutated queue back there.
\<close>

definition earlierHead ::
  "nat \<times> HelpQueueV2 \<Rightarrow> nat \<times> HelpQueueV2 \<Rightarrow> nat \<times> HelpQueueV2" where
  "earlierHead prev cur =
     (case (first (snd prev), first (snd cur)) of
        (Some p, Some c) \<Rightarrow> if waitStart p < waitStart c then prev else cur
      | _ \<Rightarrow> cur)"

text \<open>
  With a \<^verbatim>\<open>specificQueue\<close> the source checks the role, calls
  \<^verbatim>\<open>dequeueWithHelper\<close> on the named queue without awaiting or returning it (its
  outcome is dropped, its mutation stays), and goes on with the cross-queue path.
\<close>

definition dequeueFirst ::
  "GuildMember \<Rightarrow> string option \<Rightarrow> AttendingServerV2 \<Rightarrow> Helpee server_result" where
  "dequeueFirst helperMember specificQueue srv =
     (case (case specificQueue of
              None \<Rightarrow> Inr srv
            | Some sq \<Rightarrow>
                if sq \<notin> set (map fst (roles helperMember))
                then Inl (ServerError (''You don't have the permission to dequeue `'' @ sq @ ''`.''))
                else (case find (\<lambda>(i, queue). queueName queue = sq) (enumerate 0 (queues srv)) of
                        None \<Rightarrow> Inr srv
                      | Some (i, queue) \<Rightarrow>
                          Inr (srv\<lparr>queues :=
                                 (queues srv)[i := snd (dequeueWithHelper helperMember queue)]\<rparr>))) of
        Inl e \<Rightarrow> (Inl e, srv)
      | Inr srv1 \<Rightarrow>
          (let currentlyHelpingChannels =
                 filter (\<lambda>(i, queue). helpers queue (memberId helperMember) \<noteq> None)
                   (enumerate 0 (queues srv1))
           in if length currentlyHelpingChannels = 0
              then (Inl (ServerError ''You are not currently hosting.''), srv1)
              else (case voiceChannel helperMember of
                      None \<Rightarrow> (Inl (ServerError ''You need to be in a voice channel first.''), srv1)
                    | Some helperVoiceChannel \<Rightarrow>
                        (let nonEmptyQueues =
                               filter (\<lambda>(i, queue). isOpen queue \<and> length_students queue \<noteq> 0)
                                 currentlyHelpingChannels
                         in if length nonEmptyQueues = 0
                            then (Inl (ServerError
                                    ''There's no one left to help. You should get some coffee!''),
                                  srv1)
                            else (case reduce earlierHead nonEmptyQueues of
                                    Inl e \<Rightarrow> (Inl e, srv1)
                                  | Inr (i, queueToDeq) \<Rightarrow>
                                      (case dequeueWithHelper helperMember queueToDeq of
                                         (Inl e, q') \<Rightarrow>
                                           (Inl e, srv1\<lparr>queues := (queues srv1)[i := q']\<rparr>)
                                       | (Inr student, q') \<Rightarrow>
                                           (Inr student,
                                            srv1\<lparr>queues := (queues srv1)[i := q']\<rparr>)))))))"

text \<open>
  \<^verbatim>\<open>Promise.all\<close> over the mapped calls: every call runs (each mutates its queue
  before its first \<^verbatim>\<open>await\<close>), and one rejection rejects the whole, which the
  \<^verbatim>\<open>catch\<close> turns into the \<^verbatim>\<open>ServerError\<close>.
\<close>

definition openAllOpenableQueues ::
  "time \<Rightarrow> GuildMember \<Rightarrow> AttendingServerV2 \<Rightarrow> unit server_result" where
  "openAllOpenableQueues now helperMember srv =
     (let openable = (\<lambda>queue. queueName queue \<in> set (map snd (roles helperMember)));
          openableQueues = filter openable (queues srv)
      in if length openableQueues = 0
         then (Inl (ServerError (''It seems like you don't have any class roles.'' @ [CHR 0x0A] @
                       ''This might be a human error. '' @
                       ''In the meantime, you can help students through DMs.'')), srv)
         else (let outcomes = map (\<lambda>queue. fst (openQueue_helper now helperMember queue))
                                openableQueues;
                   srv' = srv\<lparr>queues :=
                            map (\<lambda>queue. if openable queue
                                          then snd (openQueue_helper now helperMember queue)
                                          else queue) (queues srv)\<rparr>
               in if list_ex isl outcomes
                  then (Inl (ServerError ''You are already hosting.''), srv')
                  else (Inr (), srv')))"

definition longerHelpTime :: "Required_Helper \<Rightarrow> Required_Helper \<Rightarrow> Required_Helper" where
  "longerHelpTime prev cur = (if helpEnd prev > helpStart cur then prev else cur)"

definition closeAllClosableQueues ::
  "time \<Rightarrow> GuildMember \<Rightarrow> AttendingServerV2 \<Rightarrow> Required_Helper server_result" where
  "closeAllClosableQueues now helperMember srv =
     (let closable = (\<lambda>queue. queueName queue \<in> set (map snd (roles helperMember)));
          closableQueues = filter closable (queues srv);
          outcomes = map (\<lambda>queue. fst (closeQueue_helper now helperMember queue)) closableQueues;
          srv' = srv\<lparr>queues :=
                   map (\<lambda>queue. if closable queue
                                 then snd (closeQueue_helper now helperMember queue)
                                 else queue) (queues srv)\<rparr>
      in if list_ex isl outcomes
         then (Inl (ServerError ''You are not currently hosting.''), srv')
         else (case reduce longerHelpTime (map projr outcomes) of
                 Inl e \<Rightarrow> (Inl e, srv')
               | Inr maxHelpTime \<Rightarrow> (Inr maxHelpTime, srv')))"

text \<open>
  \<^verbatim>\<open>SimpleEmbed(message, color, description)\<close> of \<^verbatim>\<open>utils/embed-helper\<close> is kept as
  its arguments. The result of an announcement is the list of messages sent, each with
  the member it was sent to, in the order of the calls.
\<close>

datatype EmbedColor = NeedName

datatype embed = SimpleEmbed string "EmbedColor option" "string option"

definition announceToStudentsInQueue ::
  "GuildMember \<Rightarrow> string \<Rightarrow> string option \<Rightarrow> AttendingServerV2 \<Rightarrow>
     error + (GuildMember \<times> embed) list" where
  "announceToStudentsInQueue helperMember message targetQueue srv =
     (case (case targetQueue of
              None \<Rightarrow> Inr []
            | Some tq \<Rightarrow>
                (case find (\<lambda>queue. queueName queue = tq \<and>
                                    helpers queue (memberId helperMember) \<noteq> None) (queues srv) of
                   None \<Rightarrow>
                     Inl (ServerError (''You don't have permission to announce in '' @ tq @ ''. '' @
                            ''Check your class roles.''))
                 | Some queueToAnnounce \<Rightarrow>
                     Inr (map (\<lambda>student. (Helpee.member student,
                                 SimpleEmbed (''Staff member '' @ displayName helperMember @
                                              '' announced: '' @ message)
                                   (Some NeedName) (Some (''In queue: '' @ tq))))
                            (students queueToAnnounce)))) of
        Inl e \<Rightarrow> Inl e
      | Inr scoped \<Rightarrow>
          Inr (scoped @
               map (\<lambda>student. (Helpee.member student, SimpleEmbed message None None))
                 (concat (map students
                    (filter (\<lambda>queue. helpers queue (memberId helperMember) \<noteq> None)
                       (queues srv))))))"

section \<open>Runs of queue operations\<close>

text \<open>
  A sequence of \<open>enqueue\<close> calls, each with its clock reading, and \<open>n\<close> successive
  \<open>dequeue\<close> calls by one helper, stopping at the first call that fails.
\<close>

fun enqueueAll :: "(time \<times> Helpee) list \<Rightarrow> HelpQueueV2 \<Rightarrow> HelpQueueV2" where
  "enqueueAll [] q = q"
| "enqueueAll ((now, student) # rest) q = enqueueAll rest (snd (enqueue now student q))"

fun dequeueN :: "nat \<Rightarrow> string \<Rightarrow> HelpQueueV2 \<Rightarrow> HelpQueueV2" where
  "dequeueN 0 helper q = q"
| "dequeueN (Suc n) helper q =
     (case dequeue helper q of
        (Inr u, q') \<Rightarrow> dequeueN n helper q'
      | (Inl e, q') \<Rightarrow> q')"

section \<open>The candidate queues of the cross-queue dequeue\<close>

text \<open>
  The candidate queues as the specification words them, "those the helper is authorized
  for that are Open and non-empty", each with its position in the server's queue array.
  \<open>dequeueFirst\<close> computes them in two filters; this is the set it is compared with.
\<close>

definition candidates :: "GuildMember \<Rightarrow> AttendingServerV2 \<Rightarrow> (nat \<times> HelpQueueV2) list" where
  "candidates helperMember srv =
     filter (\<lambda>(i, queue). helpers queue (memberId helperMember) \<noteq> None \<and> isOpen queue \<and>
                            students queue \<noteq> [])
       (enumerate 0 (queues srv))"

section \<open>A sample community\<close>

text \<open>
  Two queues, Math and Physics. Helper \<open>h1\<close> has both class roles and a session in both
  queues (started at 50 in Math, at 10 in Physics); helper \<open>h2\<close> has a session in Math
  only. Alice waits in Math since 7, Bob and Carol in Physics since 7 and 9; each of
  them has one \<^verbatim>\<open>Helpee\<close> object, named after its member.
\<close>

definition person :: "string \<Rightarrow> GuildMember" where
  "person n = \<lparr>memberId = n, displayName = n, roles = [], voiceChannel = None\<rparr>"

definition staff :: "string option \<Rightarrow> GuildMember" where
  "staff vc = \<lparr>memberId = ''h1'', displayName = ''Hana'',
               roles = [(''r1'', ''Math''), (''r2'', ''Physics'')], voiceChannel = vc\<rparr>"

definition session :: "GuildMember \<Rightarrow> time \<Rightarrow> Helper" where
  "session m t = \<lparr>helpStart = t, helpEnd = None, helpedMembers = [], member = m\<rparr>"

definition waiting :: "string \<Rightarrow> time \<Rightarrow> Helpee" where
  "waiting n t = \<lparr>objId = n, waitStart = t, Helpee.member = person n\<rparr>"

definition mathQueue :: "bool \<Rightarrow> HelpQueueV2" where
  "mathQueue open =
     \<lparr>queueName = ''Math'',
      helpers = [''h1'' \<mapsto> session (staff None) 50, ''h2'' \<mapsto> session (person ''h2'') 20],
      students = [waiting ''alice'' 7], isOpen = open\<rparr>"

definition physicsQueue :: "bool \<Rightarrow> HelpQueueV2" where
  "physicsQueue open =
     \<lparr>queueName = ''Physics'', helpers = [''h1'' \<mapsto> session (staff None) 10],
      students = [waiting ''bob'' 7, waiting ''carol'' 9], isOpen = open\<rparr>"

definition community :: "bool \<Rightarrow> bool \<Rightarrow> AttendingServerV2" where
  "community mathOpen physicsOpen = \<lparr>queues = [mathQueue mathOpen, physicsQueue physicsOpen]\<rparr>"

section \<open>Helper lemmas\<close>

lemma enqueue_open:
  "isOpen q \<Longrightarrow>
     enqueue now s q =
       (Inr (),
        q\<lparr>students :=
            map (\<lambda>x. if objId x = objId s then x\<lparr>waitStart := now\<rparr> else x) (students q) @
            [s\<lparr>waitStart := now\<rparr>]\<rparr>)"
  by (simp add: enqueue_def)

lemma enqueue_open_fresh:
  assumes "isOpen q" and "objId s \<notin> set (map objId (students q))"
  shows "enqueue now s q = (Inr (), q\<lparr>students := students q @ [s\<lparr>waitStart := now\<rparr>]\<rparr>)"
proof -
  have "objId x \<noteq> objId s" if "x \<in> set (students q)" for x
  proof
    assume "objId x = objId s"
    with that have "objId s \<in> objId ` set (students q)"
      by (metis imageI)
    with assms(2) show False by simp
  qed
  then have "map (\<lambda>x. if objId x = objId s then x\<lparr>waitStart := now\<rparr> else x) (students q) =
        students q"
    by (intro map_idI) simp
  with assms(1) show ?thesis
    by (simp add: enqueue_open)
qed

lemma enqueueAll_open:
  assumes "isOpen q"
    and "distinct (map (\<lambda>(now, s). objId s) es)"
    and "set (map (\<lambda>(now, s). objId s) es) \<inter> set (map objId (students q)) = {}"
  shows "enqueueAll es q =
           q\<lparr>students := students q @ map (\<lambda>(now, s). s\<lparr>waitStart := now\<rparr>) es\<rparr>"
  using assms
proof (induction es arbitrary: q)
  case Nil
  then show ?case by simp
next
  case (Cons e es)
  obtain now s where e: "e = (now, s)" by (cases e)
  let ?q1 = "q\<lparr>students := students q @ [s\<lparr>waitStart := now\<rparr>]\<rparr>"
  from Cons.prems(3) have fresh: "objId s \<notin> set (map objId (students q))"
    by (auto simp: e)
  have step: "enqueue now s q = (Inr (), ?q1)"
    using Cons.prems(1) fresh by (rule enqueue_open_fresh)
  have o: "isOpen ?q1"
    using Cons.prems(1) by simp
  have d: "distinct (map (\<lambda>(now, s). objId s) es)"
    using Cons.prems(2) by simp
  have i: "set (map (\<lambda>(now, s). objId s) es) \<inter> set (map objId (students ?q1)) = {}"
    using Cons.prems(2,3) by (auto simp: e)
  from Cons.IH [OF o d i] show ?case
    by (simp add: e step)
qed

lemma dequeue_head:
  "helpers q helper = Some h \<Longrightarrow> students q = s # rest \<Longrightarrow>
     dequeue helper q =
       (Inr (), q\<lparr>students := rest,
                  helpers := (helpers q)(helper \<mapsto>
                    h\<lparr>helpedMembers := helpedMembers h @ [Helpee.member s]\<rparr>)\<rparr>)"
  by (simp add: dequeue_def)

lemma dequeueN_take_drop:
  "helpers q helper = Some h \<Longrightarrow>
     students (dequeueN n helper q) = drop n (students q) \<and>
     helpers (dequeueN n helper q) helper =
       Some (h\<lparr>helpedMembers := helpedMembers h @ map Helpee.member (take n (students q))\<rparr>) \<and>
     isOpen (dequeueN n helper q) = isOpen q"
proof (induction n arbitrary: q h)
  case 0
  then show ?case by simp
next
  case (Suc n)
  show ?case
  proof (cases "students q")
    case Nil
    with Suc.prems show ?thesis
      by (simp add: dequeue_def)
  next
    case (Cons s rest)
    let ?h' = "h\<lparr>helpedMembers := helpedMembers h @ [Helpee.member s]\<rparr>"
    let ?q' = "q\<lparr>students := rest, helpers := (helpers q)(helper \<mapsto> ?h')\<rparr>"
    have step: "dequeue helper q = (Inr (), ?q')"
      using Suc.prems Cons by (rule dequeue_head)
    have "helpers ?q' helper = Some ?h'" by simp
    from Suc.IH [OF this] show ?thesis
      by (simp add: Cons step)
  qed
qed

lemma waitStart_stamped:
  "map waitStart (map (\<lambda>(now, s). s\<lparr>waitStart := now\<rparr>) es) = map fst es"
  by (induction es) auto

lemma filter_enumerate_empty:
  "filter (\<lambda>(i, queue). P queue) (enumerate n qs) = [] \<longleftrightarrow> (\<forall>queue \<in> set qs. \<not> P queue)"
proof -
  have "set qs = snd ` set (enumerate n qs)"
    by (metis map_snd_enumerate set_map)
  then show ?thesis
    by (auto simp: filter_empty_conv)
qed

lemma earlierHead_heads:
  "students (snd p) = a # as \<Longrightarrow> students (snd c) = b # bs \<Longrightarrow>
     earlierHead p c = (if waitStart a < waitStart b then p else c)"
  by (simp add: earlierHead_def first_def)

lemma foldl_earlierHead:
  assumes "\<forall>c \<in> set (x # xs). students (snd c) \<noteq> []"
  shows "foldl earlierHead x xs \<in> set (x # xs) \<and>
         (\<forall>c \<in> set (x # xs).
            waitStart (hd (students (snd (foldl earlierHead x xs)))) \<le>
              waitStart (hd (students (snd c)))) \<and>
         (sorted_wrt (\<lambda>a b. fst a < fst b) (x # xs) \<longrightarrow>
            (\<forall>c \<in> set (x # xs).
               waitStart (hd (students (snd c))) =
                 waitStart (hd (students (snd (foldl earlierHead x xs)))) \<longrightarrow>
               fst c \<le> fst (foldl earlierHead x xs)))"
  using assms
proof (induction xs rule: rev_induct)
  case Nil
  then show ?case by simp
next
  case (snoc y ys)
  let ?r = "foldl earlierHead x ys"
  let ?k = "\<lambda>c. waitStart (hd (students (snd c)))"
  from snoc.prems have ne: "\<forall>c \<in> set (x # ys). students (snd c) \<noteq> []" and y: "students (snd y) \<noteq> []"
    by auto
  note IH = snoc.IH [OF ne]
  from IH ne have "students (snd ?r) \<noteq> []" by blast
  then obtain a as where a: "students (snd ?r) = a # as"
    by (cases "students (snd ?r)") auto
  from y obtain b bs where b: "students (snd y) = b # bs"
    by (cases "students (snd y)") auto
  have ka: "?k ?r = waitStart a" and kb: "?k y = waitStart b"
    by (simp_all only: a b list.sel)
  have "earlierHead ?r y = (if ?k ?r < ?k y then ?r else y)"
    unfolding ka kb by (rule earlierHead_heads [OF a b])
  then have step: "foldl earlierHead x (ys @ [y]) = (if ?k ?r < ?k y then ?r else y)"
    by (simp only: foldl_append foldl_Cons foldl_Nil)
  show ?case
  proof (cases "?k ?r < ?k y")
    case True
    then have r: "foldl earlierHead x (ys @ [y]) = ?r" by (simp only: step if_True)
    have srt: "sorted_wrt (\<lambda>a b. fst a < fst b) (x # ys)"
      if "sorted_wrt (\<lambda>a b. fst a < fst b) (x # ys @ [y])"
      using that by (simp add: sorted_wrt_append)
    show ?thesis
      unfolding r using IH True srt by auto
  next
    case False
    then have r: "foldl earlierHead x (ys @ [y]) = y" by (simp only: step if_False)
    have last: "\<forall>c \<in> set (x # ys). fst c < fst y"
      if "sorted_wrt (\<lambda>a b. fst a < fst b) (x # ys @ [y])"
      using that by (auto simp: sorted_wrt_append)
    show ?thesis
      unfolding r using IH False last by (auto simp: less_imp_le)
  qed
qed

lemma enumerate_increasing: "sorted_wrt (\<lambda>a b. fst a < fst b) (filter P (enumerate n qs))"
proof -
  have "sorted_wrt (<) (map fst (enumerate n qs))"
    by (simp add: map_fst_enumerate)
  then have "sorted_wrt (\<lambda>a b. fst a < fst b) (enumerate n qs)"
    by (simp only: sorted_wrt_map)
  then show ?thesis by (rule sorted_wrt_filter)
qed

lemma dequeueWithHelper_head:
  "helpers q (memberId helperMember) = Some h \<Longrightarrow> students q = s # rest \<Longrightarrow>
     dequeueWithHelper helperMember q =
       (Inr s, q\<lparr>students := rest,
                 helpers := (helpers q)(memberId helperMember \<mapsto>
                   h\<lparr>helpedMembers := helpedMembers h @ [Helpee.member s]\<rparr>)\<rparr>)"
  by (simp add: dequeueWithHelper_def)

lemma dequeueFirst_hosting_in_voice:
  assumes "voiceChannel helperMember = Some vc"
    and "\<exists>queue \<in> set (queues srv). helpers queue (memberId helperMember) \<noteq> None"
  shows "dequeueFirst helperMember None srv =
     (if candidates helperMember srv = []
      then (Inl (ServerError ''There's no one left to help. You should get some coffee!''), srv)
      else (case foldl earlierHead (hd (candidates helperMember srv))
                   (tl (candidates helperMember srv)) of
              (i, queueToDeq) \<Rightarrow>
                (fst (dequeueWithHelper helperMember queueToDeq),
                 srv\<lparr>queues := (queues srv)[i := snd (dequeueWithHelper helperMember queueToDeq)]\<rparr>)))"
proof -
  let ?hosting = "filter (\<lambda>(i, queue). helpers queue (memberId helperMember) \<noteq> None)
                    (enumerate 0 (queues srv))"
  have hosting: "?hosting \<noteq> []"
    using assms(2) filter_enumerate_empty [of "\<lambda>queue. helpers queue (memberId helperMember) \<noteq> None" 0 "queues srv"]
    by blast
  have cand: "filter (\<lambda>(i, queue). isOpen queue \<and> length_students queue \<noteq> 0) ?hosting =
              candidates helperMember srv"
    unfolding candidates_def length_students_def filter_filter
    by (rule filter_cong) auto
  show ?thesis
  proof (cases "candidates helperMember srv")
    case Nil
    with hosting assms(1) cand show ?thesis
      by (simp add: dequeueFirst_def Let_def)
  next
    case (Cons c cs)
    obtain i queueToDeq where r: "foldl earlierHead c cs = (i, queueToDeq)"
      by (cases "foldl earlierHead c cs")
    from Cons hosting assms(1) cand r show ?thesis
      by (simp add: dequeueFirst_def Let_def reduce_def split: prod.splits sum.splits)
  qed
qed


lemma openQueue_helper_open:
  "isOpen q \<Longrightarrow>
     openQueue_helper now helperMember q =
       (Inl (QueueError ''The queue is already open.'' (queueName q)), q)"
  by (simp add: openQueue_helper_def)

lemma isl_openQueue_helper: "isl (fst (openQueue_helper now helperMember q)) = isOpen q"
  by (simp add: openQueue_helper_def)

text \<open>
  The fold of \<open>closeAllClosableQueues\<close> keeps its first session as long as that
  session ended after each of the others started.
\<close>

lemma foldl_longerHelpTime_first:
  "\<forall>s \<in> set xs. helpStart s < helpEnd x \<Longrightarrow> foldl longerHelpTime x xs = x"
  by (induction xs) (simp_all add: longerHelpTime_def)

section \<open>Opening and closing a queue\<close>

text \<open>
  C6 (as amended). \<open>openQueue\<close> takes no helper. On an open queue it fails with the
  already-open \<open>QueueError\<close> and leaves the queue as it was. On a closed queue it
  succeeds: the queue is open afterwards, \<open>helpStart\<close> of every helper in the helper set
  is stamped with the clock reading, no helper is added or removed, and \<open>helpEnd\<close>, the
  served lists, the waiting list and the name are unchanged.
\<close>

theorem openQueue_outcome:
  "(isOpen q \<longrightarrow>
      openQueue now q = (Inl (QueueError ''The queue is already open.'' (queueName q)), q)) \<and>
   (\<not> isOpen q \<longrightarrow>
      fst (openQueue now q) = Inr () \<and> isOpen (snd (openQueue now q)) \<and>
      dom (helpers (snd (openQueue now q))) = dom (helpers q) \<and>
      (\<forall>k h. helpers q k = Some h \<longrightarrow>
         helpers (snd (openQueue now q)) k = Some (h\<lparr>helpStart := now\<rparr>)) \<and>
      students (snd (openQueue now q)) = students q \<and>
      queueName (snd (openQueue now q)) = queueName q)"
  by (auto simp: openQueue_def dom_def split: if_splits)

theorem openQueue_outcome_witness:
  "openQueue 100 (mathQueue True) =
     (Inl (QueueError ''The queue is already open.'' ''Math''), mathQueue True) \<and>
   fst (openQueue 100 (mathQueue False)) = Inr () \<and>
   isOpen (snd (openQueue 100 (mathQueue False))) \<and>
   helpers (snd (openQueue 100 (mathQueue False))) ''h1'' =
     Some ((session (staff None) 50)\<lparr>helpStart := 100\<rparr>) \<and>
   helpers (snd (openQueue 100 (mathQueue False))) ''h2'' =
     Some ((session (person ''h2'') 20)\<lparr>helpStart := 100\<rparr>) \<and>
   students (snd (openQueue 100 (mathQueue False))) = [waiting ''alice'' 7]"
  using openQueue_outcome [of "mathQueue True" 100] openQueue_outcome [of "mathQueue False" 100]
  by (simp add: mathQueue_def)

text \<open>
  The claim as stated fails on a closed queue with two helpers: whichever of \<open>h1\<close> and
  \<open>h2\<close> is taken to be the opening helper, the other one's \<open>helpStart\<close> is restamped
  too, and a helper who is not in the set (\<open>h3\<close>) is not added.
\<close>

theorem openQueue_counterexample:
  "\<not> isOpen (mathQueue False) \<and>
   map_option helpStart (helpers (mathQueue False) ''h1'') = Some 50 \<and>
   map_option helpStart (helpers (mathQueue False) ''h2'') = Some 20 \<and>
   fst (openQueue 100 (mathQueue False)) = Inr () \<and>
   map_option helpStart (helpers (snd (openQueue 100 (mathQueue False))) ''h1'') = Some 100 \<and>
   map_option helpStart (helpers (snd (openQueue 100 (mathQueue False))) ''h2'') = Some 100 \<and>
   helpers (snd (openQueue 100 (mathQueue False))) ''h3'' = None"
  by (simp add: openQueue_def mathQueue_def session_def)

text \<open>
  C1. The Math queue is open and \<open>h1\<close> is in its helper set, and yet \<open>closeQueue\<close>
  rejects the close with the not-hosting \<open>QueueError\<close> and the queue stays open. On the
  closed Math queue, where nobody is hosting, the same call succeeds. The guard tests
  \<^verbatim>\<open>this.isOpen\<close> where the message it throws, and the guards of \<open>openQueue\<close> and
  \<open>enqueue\<close>, call for its negation.
\<close>

theorem closeQueue_rejects_open_queue:
  "isOpen (mathQueue True) \<and> helpers (mathQueue True) ''h1'' \<noteq> None \<and>
   closeQueue 100 (mathQueue True) =
     (Inl (QueueError ''You are not currently hosting.'' ''Math''), mathQueue True) \<and>
   \<not> isOpen (mathQueue False) \<and>
   fst (closeQueue 100 (mathQueue False)) = Inr () \<and>
   map_option helpEnd (helpers (snd (closeQueue 100 (mathQueue False))) ''h1'') =
     Some (Some 100)"
  by (simp add: closeQueue_def mathQueue_def session_def)

section \<open>Enqueue on a closed queue\<close>

text \<open>
  C4. On a queue that is not open, \<open>enqueue\<close> fails with the not-open \<open>QueueError\<close>
  carrying the queue's name, and the queue it leaves behind is the queue it was given:
  the waiting list and every other field are untouched.
\<close>

theorem enqueue_closed_fails_unchanged:
  "\<not> isOpen q \<Longrightarrow>
     enqueue now student q =
       (Inl (QueueError (''Queue '' @ queueName q @ '' is not open.'') (queueName q)), q)"
  by (simp add: enqueue_def)

theorem enqueue_closed_fails_unchanged_witness:
  "\<not> isOpen (mathQueue False) \<and>
   enqueue 12 (waiting ''dave'' 0) (mathQueue False) =
     (Inl (QueueError ''Queue Math is not open.'' ''Math''), mathQueue False) \<and>
   students (snd (enqueue 12 (waiting ''dave'' 0) (mathQueue False))) = [waiting ''alice'' 7]"
  using enqueue_closed_fails_unchanged [of "mathQueue False" 12 "waiting ''dave'' 0"]
  by (simp add: mathQueue_def)

section \<open>Enqueue on an open queue\<close>

text \<open>
  C5 (as amended). On an open queue \<open>enqueue\<close> succeeds also for a requester that is
  already in the waiting list, be it the waiting object itself or another object for the
  same member: the requester is stamped and appended at the tail, the entries that are
  the same object show the new stamp, nothing else changes, and the requester occurs at
  least twice afterwards. There is no already-queued rejection.
\<close>

theorem enqueue_open_accepts_waiting_requester:
  assumes "isOpen q"
    and "objId student \<in> set (map objId (students q)) \<or>
         Helpee.member student \<in> set (map Helpee.member (students q))"
  shows "enqueue now student q =
           (Inr (),
            q\<lparr>students :=
                map (\<lambda>s. if objId s = objId student then s\<lparr>waitStart := now\<rparr> else s)
                  (students q) @
                [student\<lparr>waitStart := now\<rparr>]\<rparr>) \<and>
         2 \<le> length (filter (\<lambda>s. objId s = objId student \<or>
                                   Helpee.member s = Helpee.member student)
                        (students (snd (enqueue now student q))))"
proof -
  let ?same = "\<lambda>s. objId s = objId student \<or> Helpee.member s = Helpee.member student"
  let ?stamp = "\<lambda>s. if objId s = objId student then s\<lparr>waitStart := now\<rparr> else s"
  have e: "enqueue now student q =
             (Inr (), q\<lparr>students := map ?stamp (students q) @ [student\<lparr>waitStart := now\<rparr>]\<rparr>)"
    using assms(1) by (rule enqueue_open)
  define stamped where "stamped = map ?stamp (students q)"
  from assms(2) obtain s where s: "s \<in> set (students q)" and same: "?same s"
    by auto
  from s have "?stamp s \<in> set stamped"
    by (simp add: stamped_def)
  moreover from same have "?same (?stamp s)"
    by (cases "objId s = objId student") simp_all
  ultimately have "filter ?same stamped \<noteq> []"
    unfolding filter_empty_conv by blast
  then have "0 < length (filter ?same stamped)"
    by simp
  then have "2 \<le> length (filter ?same (stamped @ [student\<lparr>waitStart := now\<rparr>]))"
    by (simp add: Suc_le_eq)
  with e show ?thesis
    unfolding stamped_def by simp
qed

theorem enqueue_open_accepts_waiting_requester_witness:
  "isOpen (mathQueue True) \<and>
   objId (waiting ''alice'' 7) \<in> set (map objId (students (mathQueue True))) \<and>
   fst (enqueue 12 (waiting ''alice'' 7) (mathQueue True)) = Inr () \<and>
   students (snd (enqueue 12 (waiting ''alice'' 7) (mathQueue True))) =
     [waiting ''alice'' 12, waiting ''alice'' 12] \<and>
   Helpee.member ((waiting ''alice'' 0)\<lparr>objId := ''alice again''\<rparr>) \<in>
     set (map Helpee.member (students (mathQueue True))) \<and>
   fst (enqueue 12 ((waiting ''alice'' 0)\<lparr>objId := ''alice again''\<rparr>) (mathQueue True)) =
     Inr () \<and>
   students (snd (enqueue 12 ((waiting ''alice'' 0)\<lparr>objId := ''alice again''\<rparr>)
                    (mathQueue True))) =
     [waiting ''alice'' 7, (waiting ''alice'' 12)\<lparr>objId := ''alice again''\<rparr>]"
  using enqueue_open_accepts_waiting_requester [of "mathQueue True" "waiting ''alice'' 7" 12]
    enqueue_open_accepts_waiting_requester
      [of "mathQueue True" "(waiting ''alice'' 0)\<lparr>objId := ''alice again''\<rparr>" 12]
  by (simp add: mathQueue_def waiting_def)

text \<open>
  The claim as stated fails on the open Math queue, where Alice is waiting since 7:
  enqueueing her waiting object again at 12 is accepted, and the waiting list changes
  from one entry stamped 7 to two entries stamped 12.
\<close>

theorem enqueue_already_queued_counterexample:
  "isOpen (mathQueue True) \<and> students (mathQueue True) = [waiting ''alice'' 7] \<and>
   fst (enqueue 12 (waiting ''alice'' 7) (mathQueue True)) = Inr () \<and>
   students (snd (enqueue 12 (waiting ''alice'' 7) (mathQueue True))) =
     [waiting ''alice'' 12, waiting ''alice'' 12]"
  by (simp add: enqueue_def mathQueue_def waiting_def)

section \<open>First in, first out\<close>

text \<open>
  C2 (as amended). Take an open queue whose waiting list is in non-decreasing
  \<open>waitStart\<close> order, and a sequence of \<open>enqueue\<close> calls whose requester objects are
  pairwise distinct and not already in the waiting list, and whose clock readings do not
  go back (neither behind one another nor behind the waiting requesters). Each
  \<open>enqueue\<close> appends its requester at the tail, stamped with its clock reading, so the
  waiting list stays in non-decreasing \<open>waitStart\<close> order and its head has the lowest
  \<open>waitStart\<close>. Then \<open>n\<close> successive \<open>dequeue\<close> calls by a helper of the queue, which
  return nothing, remove exactly the first \<open>n\<close> waiting requesters, head first, hence in
  non-decreasing \<open>waitStart\<close> order; the rest stays, and the members removed are
  appended, in that order, to the helper's served list.
\<close>

theorem fifo_order_distinct_requesters:
  assumes "isOpen q"
    and "sorted (map waitStart (students q) @ map fst es)"
    and "distinct (map (\<lambda>(now, s). objId s) es)"
    and "set (map (\<lambda>(now, s). objId s) es) \<inter> set (map objId (students q)) = {}"
    and "helpers q helper = Some h"
  shows "students (enqueueAll es q) = students q @ map (\<lambda>(now, s). s\<lparr>waitStart := now\<rparr>) es \<and>
         sorted (map waitStart (students (enqueueAll es q))) \<and>
         students (dequeueN n helper (enqueueAll es q)) = drop n (students (enqueueAll es q)) \<and>
         sorted (map waitStart (take n (students (enqueueAll es q)))) \<and>
         map_option helpedMembers (helpers (dequeueN n helper (enqueueAll es q)) helper) =
           Some (helpedMembers h @ map Helpee.member (take n (students (enqueueAll es q))))"
proof -
  let ?q = "enqueueAll es q"
  have q: "?q = q\<lparr>students := students q @ map (\<lambda>(now, s). s\<lparr>waitStart := now\<rparr>) es\<rparr>"
    using assms(1,3,4) by (rule enqueueAll_open)
  then have st: "students ?q = students q @ map (\<lambda>(now, s). s\<lparr>waitStart := now\<rparr>) es"
    by simp
  have "map waitStart (students ?q) = map waitStart (students q) @ map fst es"
    unfolding st map_append waitStart_stamped ..
  with assms(2) have srt: "sorted (map waitStart (students ?q))"
    by simp
  have "helpers ?q helper = Some h"
    using assms(5) by (simp add: q)
  note dq = dequeueN_take_drop [OF this, of n]
  have "sorted (take n (map waitStart (students ?q)))"
    using srt by (rule sorted_wrt_take)
  then have "sorted (map waitStart (take n (students ?q)))"
    by (simp add: take_map)
  with st srt dq show ?thesis by simp
qed

theorem fifo_order_distinct_requesters_witness:
  "isOpen (mathQueue True) \<and>
   sorted (map waitStart (students (mathQueue True)) @
           map fst [(8, waiting ''bob'' 0), (9, waiting ''carol'' 0)]) \<and>
   distinct (map (\<lambda>(now, s). objId s) [(8, waiting ''bob'' 0), (9, waiting ''carol'' 0)]) \<and>
   helpers (mathQueue True) ''h1'' = Some (session (staff None) 50) \<and>
   students (enqueueAll [(8, waiting ''bob'' 0), (9, waiting ''carol'' 0)] (mathQueue True)) =
     [waiting ''alice'' 7, waiting ''bob'' 8, waiting ''carol'' 9] \<and>
   students (dequeueN 2 ''h1''
          (enqueueAll [(8, waiting ''bob'' 0), (9, waiting ''carol'' 0)] (mathQueue True))) =
     [waiting ''carol'' 9] \<and>
   map_option helpedMembers (helpers (dequeueN 2 ''h1''
          (enqueueAll [(8, waiting ''bob'' 0), (9, waiting ''carol'' 0)] (mathQueue True))) ''h1'') =
     Some [person ''alice'', person ''bob'']"
proof -
  have o: "isOpen (mathQueue True)"
    by (simp add: mathQueue_def)
  have s: "sorted (map waitStart (students (mathQueue True)) @
                   map fst [(8, waiting ''bob'' 0), (9, waiting ''carol'' 0)])"
    by (simp add: mathQueue_def waiting_def)
  have d: "distinct (map (\<lambda>(now, s). objId s) [(8, waiting ''bob'' 0), (9, waiting ''carol'' 0)])"
    by (simp add: waiting_def)
  have i: "set (map (\<lambda>(now, s). objId s) [(8, waiting ''bob'' 0), (9, waiting ''carol'' 0)]) \<inter>
           set (map objId (students (mathQueue True))) = {}"
    by (simp add: mathQueue_def waiting_def)
  have h: "helpers (mathQueue True) ''h1'' = Some (session (staff None) 50)"
    by (simp add: mathQueue_def)
  show ?thesis
    using o s d h fifo_order_distinct_requesters [OF o s d i h, of 2]
    by (simp add: mathQueue_def waiting_def session_def enqueue_def dequeue_def
          numeral_2_eq_2)
qed

text \<open>
  The claim as stated fails for two sequences of \<open>enqueue\<close> calls on the open Math
  queue, where Alice waits since 7. In the first, Bob is enqueued at 8 and then Alice's
  waiting object once more at 12: the waiting list reads 12, 8, 12, its head is not the
  requester with the lowest \<open>waitStart\<close>, and two \<open>dequeue\<close> calls remove Alice (12)
  before Bob (8). In the second, the clock is set back between two calls: Bob is
  enqueued at 8 and Carol at 6, and the waiting list reads 7, 8, 6.
\<close>

theorem fifo_order_counterexample:
  "isOpen (mathQueue True) \<and>
   map waitStart (students
     (enqueueAll [(8, waiting ''bob'' 0), (12, waiting ''alice'' 7)] (mathQueue True))) =
     [12, 8, 12] \<and>
   map_option helpedMembers (helpers (dequeueN 2 ''h1''
     (enqueueAll [(8, waiting ''bob'' 0), (12, waiting ''alice'' 7)] (mathQueue True))) ''h1'') =
     Some [person ''alice'', person ''bob''] \<and>
   map waitStart (students
     (enqueueAll [(8, waiting ''bob'' 0), (6, waiting ''carol'' 0)] (mathQueue True))) =
     [7, 8, 6]"
  by (simp add: mathQueue_def waiting_def session_def enqueue_def dequeue_def numeral_2_eq_2)


section \<open>Cross-queue dequeue\<close>

text \<open>
  C10. Without a named queue, \<open>dequeueFirst\<close> fails and leaves every queue as it was
  when the helper is in the helper set of no queue (not hosting), and also when the
  helper hosts a queue but is in no voice channel. Both checks come before the open,
  non-empty queues are looked at, so this holds whatever candidate queues there are.
\<close>

theorem dequeueFirst_requires_hosting_and_voice:
  "((\<forall>queue \<in> set (queues srv). helpers queue (memberId helperMember) = None) \<longrightarrow>
      dequeueFirst helperMember None srv =
        (Inl (ServerError ''You are not currently hosting.''), srv)) \<and>
   ((\<exists>queue \<in> set (queues srv). helpers queue (memberId helperMember) \<noteq> None) \<and>
    voiceChannel helperMember = None \<longrightarrow>
      dequeueFirst helperMember None srv =
        (Inl (ServerError ''You need to be in a voice channel first.''), srv))"
  using filter_enumerate_empty
    [of "\<lambda>queue. helpers queue (memberId helperMember) \<noteq> None" 0 "queues srv"]
  by (auto simp: dequeueFirst_def Let_def)

theorem dequeueFirst_requires_hosting_and_voice_witness:
  "candidates (staff None) (community True True) =
     [(0, mathQueue True), (1, physicsQueue True)] \<and>
   voiceChannel (staff None) = None \<and>
   dequeueFirst (staff None) None (community True True) =
     (Inl (ServerError ''You need to be in a voice channel first.''), community True True) \<and>
   helpers (mathQueue True) (memberId (person ''h3'')) = None \<and>
   helpers (physicsQueue True) (memberId (person ''h3'')) = None \<and>
   dequeueFirst (person ''h3'') None (community True True) =
     (Inl (ServerError ''You are not currently hosting.''), community True True)"
  using dequeueFirst_requires_hosting_and_voice [of "community True True" "staff None"]
    dequeueFirst_requires_hosting_and_voice [of "community True True" "person ''h3''"]
  by (simp add: candidates_def community_def mathQueue_def physicsQueue_def staff_def person_def)

text \<open>
  C3 (as amended). For a helper who is in a voice channel and in the helper set of at
  least one queue, \<open>dequeueFirst\<close> without a named queue fails with the
  nothing-to-serve \<open>ServerError\<close> when there is no candidate queue, leaving the server as
  it was. Otherwise it dequeues from a candidate queue whose head has the minimal
  \<open>waitStart\<close> among the candidates' heads, and among the candidates with that minimal
  head it takes the one latest in the server's queue array; it returns that head, and
  only that queue changes (head removed, its member appended to the helper's served
  list). For exactly two candidates, \<open>A\<close> before \<open>B\<close> in the array with heads waiting
  since \<open>T1\<close> and \<open>T2\<close>, it dequeues from \<open>A\<close> if \<open>T1 < T2\<close> and from \<open>B\<close> otherwise.
\<close>

theorem dequeueFirst_oldest_head:
  assumes "voiceChannel helperMember = Some vc"
    and "\<exists>queue \<in> set (queues srv). helpers queue (memberId helperMember) \<noteq> None"
  shows
    "(candidates helperMember srv = [] \<longrightarrow>
        dequeueFirst helperMember None srv =
          (Inl (ServerError ''There's no one left to help. You should get some coffee!''), srv)) \<and>
     (candidates helperMember srv \<noteq> [] \<longrightarrow>
        (\<exists>i queue student rest h.
           (i, queue) \<in> set (candidates helperMember srv) \<and>
           students queue = student # rest \<and>
           helpers queue (memberId helperMember) = Some h \<and>
           (\<forall>(j, other) \<in> set (candidates helperMember srv). \<forall>s. first other = Some s \<longrightarrow>
              waitStart student \<le> waitStart s \<and>
              (waitStart s = waitStart student \<longrightarrow> j \<le> i)) \<and>
           dequeueFirst helperMember None srv =
             (Inr student,
              srv\<lparr>queues := (queues srv)[i := queue\<lparr>students := rest,
                 helpers := (helpers queue)(memberId helperMember \<mapsto>
                   h\<lparr>helpedMembers := helpedMembers h @ [Helpee.member student]\<rparr>)\<rparr>]\<rparr>))) \<and>
     (\<forall>i A j B a b.
        candidates helperMember srv = [(i, A), (j, B)] \<and> first A = Some a \<and> first B = Some b \<longrightarrow>
        dequeueFirst helperMember None srv =
          (if waitStart a < waitStart b
           then (Inr a, srv\<lparr>queues := (queues srv)[i := snd (dequeueWithHelper helperMember A)]\<rparr>)
           else (Inr b, srv\<lparr>queues := (queues srv)[j := snd (dequeueWithHelper helperMember B)]\<rparr>)))"
proof (intro conjI impI allI)
  assume "candidates helperMember srv = []"
  then show "dequeueFirst helperMember None srv =
      (Inl (ServerError ''There's no one left to help. You should get some coffee!''), srv)"
    by (simp add: dequeueFirst_hosting_in_voice [OF assms])
next
  assume ne: "candidates helperMember srv \<noteq> []"
  then obtain c cs where cs: "candidates helperMember srv = c # cs"
    by (cases "candidates helperMember srv") auto
  have cand: "helpers queue (memberId helperMember) \<noteq> None \<and> students queue \<noteq> []"
    if "(j, queue) \<in> set (c # cs)" for j queue
    using that unfolding cs [symmetric] candidates_def by auto
  have nonempty: "\<forall>x \<in> set (c # cs). students (snd x) \<noteq> []"
  proof
    fix x
    assume "x \<in> set (c # cs)"
    then have "(fst x, snd x) \<in> set (c # cs)" by simp
    from cand [OF this] show "students (snd x) \<noteq> []" ..
  qed
  have incr: "sorted_wrt (\<lambda>a b. fst a < fst b) (c # cs)"
    unfolding cs [symmetric] candidates_def by (rule enumerate_increasing)
  obtain i queue where r: "foldl earlierHead c cs = (i, queue)"
    by (cases "foldl earlierHead c cs")
  note sel = foldl_earlierHead [OF nonempty, unfolded r]
  from sel have mem: "(i, queue) \<in> set (c # cs)" by blast
  from cand [OF mem] obtain h student rest
    where h: "helpers queue (memberId helperMember) = Some h"
      and st: "students queue = student # rest"
    by (cases "students queue") auto
  have least: "waitStart student \<le> waitStart s \<and> (waitStart s = waitStart student \<longrightarrow> j \<le> i)"
    if "(j, other) \<in> set (c # cs)" and "first other = Some s" for j other s
  proof -
    from that(2) have "hd (students other) = s"
      by (auto simp: first_def split: list.splits)
    with sel incr that(1) st show ?thesis by fastforce
  qed
  have "dequeueFirst helperMember None srv =
          (Inr student,
           srv\<lparr>queues := (queues srv)[i := queue\<lparr>students := rest,
              helpers := (helpers queue)(memberId helperMember \<mapsto>
                h\<lparr>helpedMembers := helpedMembers h @ [Helpee.member student]\<rparr>)\<rparr>]\<rparr>)"
    by (simp add: dequeueFirst_hosting_in_voice [OF assms] cs r
          dequeueWithHelper_head [OF h st])
  with mem h st least show "\<exists>i queue student rest h.
           (i, queue) \<in> set (candidates helperMember srv) \<and>
           students queue = student # rest \<and>
           helpers queue (memberId helperMember) = Some h \<and>
           (\<forall>(j, other) \<in> set (candidates helperMember srv). \<forall>s. first other = Some s \<longrightarrow>
              waitStart student \<le> waitStart s \<and>
              (waitStart s = waitStart student \<longrightarrow> j \<le> i)) \<and>
           dequeueFirst helperMember None srv =
             (Inr student,
              srv\<lparr>queues := (queues srv)[i := queue\<lparr>students := rest,
                 helpers := (helpers queue)(memberId helperMember \<mapsto>
                   h\<lparr>helpedMembers := helpedMembers h @ [Helpee.member student]\<rparr>)\<rparr>]\<rparr>)"
    unfolding cs by blast
next
  fix i A j B a b
  assume two: "candidates helperMember srv = [(i, A), (j, B)] \<and> first A = Some a \<and>
               first B = Some b"
  then have cs: "candidates helperMember srv = [(i, A), (j, B)]"
    and a: "first A = Some a" and b: "first B = Some b"
    by blast+
  have "(i, A) \<in> set (candidates helperMember srv)" "(j, B) \<in> set (candidates helperMember srv)"
    by (simp_all add: cs)
  then have "helpers A (memberId helperMember) \<noteq> None" "helpers B (memberId helperMember) \<noteq> None"
    unfolding candidates_def by auto
  then obtain hA hB where hA: "helpers A (memberId helperMember) = Some hA"
    and hB: "helpers B (memberId helperMember) = Some hB"
    by blast
  from a obtain as where sA: "students A = a # as"
    by (auto simp: first_def split: list.splits)
  from b obtain bs where sB: "students B = b # bs"
    by (auto simp: first_def split: list.splits)
  have pick: "earlierHead (i, A) (j, B) = (if waitStart a < waitStart b then (i, A) else (j, B))"
    using earlierHead_heads [of "(i, A)" a as "(j, B)" b bs] sA sB by simp
  show "dequeueFirst helperMember None srv =
          (if waitStart a < waitStart b
           then (Inr a, srv\<lparr>queues := (queues srv)[i := snd (dequeueWithHelper helperMember A)]\<rparr>)
           else (Inr b, srv\<lparr>queues := (queues srv)[j := snd (dequeueWithHelper helperMember B)]\<rparr>))"
    by (simp add: dequeueFirst_hosting_in_voice [OF assms] cs pick
          dequeueWithHelper_head [OF hA sA] dequeueWithHelper_head [OF hB sB])
qed


theorem dequeueFirst_oldest_head_witness:
  "voiceChannel (staff (Some ''vc'')) = Some ''vc'' \<and>
   helpers (mathQueue True) (memberId (staff (Some ''vc''))) = Some (session (staff None) 50) \<and>
   candidates (staff (Some ''vc'')) (community True True) =
     [(0, mathQueue True), (1, physicsQueue True)] \<and>
   fst (dequeueFirst (staff (Some ''vc'')) None (community True True)) =
     Inr (waiting ''bob'' 7) \<and>
   map students (queues (snd (dequeueFirst (staff (Some ''vc'')) None (community True True)))) =
     [[waiting ''alice'' 7], [waiting ''carol'' 9]] \<and>
   fst (dequeueFirst (staff (Some ''vc'')) None
          \<lparr>queues = [physicsQueue True, (mathQueue True)\<lparr>students := [waiting ''alice'' 8]\<rparr>]\<rparr>) =
     Inr (waiting ''bob'' 7) \<and>
   candidates (staff (Some ''vc'')) (community False False) = [] \<and>
   dequeueFirst (staff (Some ''vc'')) None (community False False) =
     (Inl (ServerError ''There's no one left to help. You should get some coffee!''),
      community False False)"
proof -
  have v: "voiceChannel (staff (Some ''vc'')) = Some ''vc''"
    by (simp add: staff_def)
  have h1: "\<exists>queue \<in> set (queues (community True True)).
              helpers queue (memberId (staff (Some ''vc''))) \<noteq> None"
    by (simp add: community_def mathQueue_def staff_def)
  have h2: "\<exists>queue \<in> set (queues
              \<lparr>queues = [physicsQueue True, (mathQueue True)\<lparr>students := [waiting ''alice'' 8]\<rparr>]\<rparr>).
              helpers queue (memberId (staff (Some ''vc''))) \<noteq> None"
    by (simp add: physicsQueue_def staff_def)
  have h3: "\<exists>queue \<in> set (queues (community False False)).
              helpers queue (memberId (staff (Some ''vc''))) \<noteq> None"
    by (simp add: community_def mathQueue_def staff_def)
  have c1: "candidates (staff (Some ''vc'')) (community True True) =
              [(0, mathQueue True), (1, physicsQueue True)]"
    by (simp add: candidates_def community_def mathQueue_def physicsQueue_def staff_def)
  have c2: "candidates (staff (Some ''vc''))
              \<lparr>queues = [physicsQueue True, (mathQueue True)\<lparr>students := [waiting ''alice'' 8]\<rparr>]\<rparr> =
              [(0, physicsQueue True), (1, (mathQueue True)\<lparr>students := [waiting ''alice'' 8]\<rparr>)]"
    by (simp add: candidates_def mathQueue_def physicsQueue_def staff_def)
  have c3: "candidates (staff (Some ''vc'')) (community False False) = []"
    by (simp add: candidates_def community_def mathQueue_def physicsQueue_def)
  have f: "first (mathQueue True) = Some (waiting ''alice'' 7)"
    "first (physicsQueue True) = Some (waiting ''bob'' 7)"
    "first ((mathQueue True)\<lparr>students := [waiting ''alice'' 8]\<rparr>) = Some (waiting ''alice'' 8)"
    by (simp_all add: first_def mathQueue_def physicsQueue_def)
  have w: "waitStart (waiting ''alice'' 7) = 7" "waitStart (waiting ''bob'' 7) = 7"
    "waitStart (waiting ''alice'' 8) = 8"
    by (simp_all add: waiting_def)
  have d: "students (snd (dequeueWithHelper (staff (Some ''vc'')) (physicsQueue True))) =
             [waiting ''carol'' 9]"
    by (simp add: dequeueWithHelper_def physicsQueue_def staff_def)
  have t1: "dequeueFirst (staff (Some ''vc'')) None (community True True) =
              (Inr (waiting ''bob'' 7),
               (community True True)\<lparr>queues := (queues (community True True))
                  [1 := snd (dequeueWithHelper (staff (Some ''vc'')) (physicsQueue True))]\<rparr>)"
    using dequeueFirst_oldest_head [OF v h1] c1 f w by simp
  have t2: "dequeueFirst (staff (Some ''vc'')) None
              \<lparr>queues = [physicsQueue True, (mathQueue True)\<lparr>students := [waiting ''alice'' 8]\<rparr>]\<rparr> =
              (Inr (waiting ''bob'' 7),
               \<lparr>queues = [physicsQueue True, (mathQueue True)\<lparr>students := [waiting ''alice'' 8]\<rparr>]
                  [0 := snd (dequeueWithHelper (staff (Some ''vc'')) (physicsQueue True))]\<rparr>)"
    using dequeueFirst_oldest_head [OF v h2] c2 f w by simp
  have t3: "dequeueFirst (staff (Some ''vc'')) None (community False False) =
              (Inl (ServerError ''There's no one left to help. You should get some coffee!''),
               community False False)"
    using dequeueFirst_oldest_head [OF v h3] c3 by simp
  have m: "students (mathQueue True) = [waiting ''alice'' 7]"
    by (simp add: mathQueue_def)
  have r1: "fst (dequeueFirst (staff (Some ''vc'')) None (community True True)) =
              Inr (waiting ''bob'' 7)"
    unfolding t1 by simp
  have r2: "map students
              (queues (snd (dequeueFirst (staff (Some ''vc'')) None (community True True)))) =
              [[waiting ''alice'' 7], [waiting ''carol'' 9]]"
    unfolding t1 by (simp add: community_def d m)
  have r3: "fst (dequeueFirst (staff (Some ''vc'')) None
              \<lparr>queues = [physicsQueue True, (mathQueue True)\<lparr>students := [waiting ''alice'' 8]\<rparr>]\<rparr>) =
              Inr (waiting ''bob'' 7)"
    unfolding t2 by simp
  have h0: "helpers (mathQueue True) (memberId (staff (Some ''vc''))) =
              Some (session (staff None) 50)"
    by (simp add: mathQueue_def staff_def)
  from v h0 c1 r1 r2 r3 c3 t3 show ?thesis
    by (intro conjI)
qed

text \<open>
  The claim as stated fails for a helper who is in no voice channel: the open,
  non-empty Physics queue the helper hosts is a candidate, and yet nobody is dequeued.
\<close>

theorem dequeueFirst_candidates_counterexample:
  "candidates (staff None) \<lparr>queues = [physicsQueue True]\<rparr> = [(0, physicsQueue True)] \<and>
   dequeueFirst (staff None) None \<lparr>queues = [physicsQueue True]\<rparr> =
     (Inl (ServerError ''You need to be in a voice channel first.''),
      \<lparr>queues = [physicsQueue True]\<rparr>)"
  by (simp add: candidates_def dequeueFirst_def physicsQueue_def staff_def)


section \<open>Bulk open and close\<close>

text \<open>
  C8 (as amended). \<open>openAllOpenableQueues\<close> applies \<open>openQueue\<close> to every queue whose
  name is one of the helper's role names. When there is no such queue it fails with the
  no-class-roles \<open>ServerError\<close> and changes nothing. Otherwise every one of those queues
  that is closed is opened, and the queues that are already open or not the helper's
  stay as they are; but the call succeeds only if none of the helper's queues was already
  open: if one was, the whole call fails with the already-hosting \<open>ServerError\<close>. No
  count of transitions is returned.
\<close>

theorem openAllOpenableQueues_all_or_error:
  "((\<forall>queue \<in> set (queues srv). queueName queue \<notin> snd ` set (roles helperMember)) \<longrightarrow>
      openAllOpenableQueues now helperMember srv =
        (Inl (ServerError (''It seems like you don't have any class roles.'' @ [CHR 0x0A] @
                ''This might be a human error. '' @
                ''In the meantime, you can help students through DMs.'')), srv)) \<and>
   ((\<exists>queue \<in> set (queues srv). queueName queue \<in> snd ` set (roles helperMember)) \<longrightarrow>
      fst (openAllOpenableQueues now helperMember srv) =
        (if \<exists>queue \<in> set (queues srv).
               queueName queue \<in> snd ` set (roles helperMember) \<and> isOpen queue
         then Inl (ServerError ''You are already hosting.'') else Inr ()) \<and>
      queues (snd (openAllOpenableQueues now helperMember srv)) =
        map (\<lambda>queue. if queueName queue \<in> snd ` set (roles helperMember) \<and> \<not> isOpen queue
                      then snd (openQueue_helper now helperMember queue) else queue)
          (queues srv))"
proof (intro conjI impI)
  assume "\<forall>queue \<in> set (queues srv). queueName queue \<notin> snd ` set (roles helperMember)"
  then have "filter (\<lambda>queue. queueName queue \<in> set (map snd (roles helperMember))) (queues srv) = []"
    by (simp add: filter_empty_conv)
  then show "openAllOpenableQueues now helperMember srv =
        (Inl (ServerError (''It seems like you don't have any class roles.'' @ [CHR 0x0A] @
                ''This might be a human error. '' @
                ''In the meantime, you can help students through DMs.'')), srv)"
    unfolding openAllOpenableQueues_def Let_def by simp
next
  assume some: "\<exists>queue \<in> set (queues srv). queueName queue \<in> snd ` set (roles helperMember)"
  then have ne: "filter (\<lambda>queue. queueName queue \<in> set (map snd (roles helperMember)))
                   (queues srv) \<noteq> []"
    by (simp add: filter_empty_conv)
  have rejected: "list_ex isl
          (map (\<lambda>queue. fst (openQueue_helper now helperMember queue))
             (filter (\<lambda>queue. queueName queue \<in> set (map snd (roles helperMember))) (queues srv))) =
        (\<exists>queue \<in> set (queues srv).
            queueName queue \<in> snd ` set (roles helperMember) \<and> isOpen queue)"
    by (auto simp: list_ex_iff isl_openQueue_helper)
  have same: "map (\<lambda>queue. if queueName queue \<in> set (map snd (roles helperMember))
                            then snd (openQueue_helper now helperMember queue) else queue)
                (queues srv) =
              map (\<lambda>queue. if queueName queue \<in> snd ` set (roles helperMember) \<and> \<not> isOpen queue
                            then snd (openQueue_helper now helperMember queue) else queue)
                (queues srv)"
    by (rule map_cong) (auto simp: openQueue_helper_open)
  show "fst (openAllOpenableQueues now helperMember srv) =
        (if \<exists>queue \<in> set (queues srv).
               queueName queue \<in> snd ` set (roles helperMember) \<and> isOpen queue
         then Inl (ServerError ''You are already hosting.'') else Inr ())"
    unfolding openAllOpenableQueues_def Let_def using ne rejected by simp
  show "queues (snd (openAllOpenableQueues now helperMember srv)) =
        map (\<lambda>queue. if queueName queue \<in> snd ` set (roles helperMember) \<and> \<not> isOpen queue
                      then snd (openQueue_helper now helperMember queue) else queue)
          (queues srv)"
    unfolding openAllOpenableQueues_def Let_def using ne same by simp
qed

theorem openAllOpenableQueues_all_or_error_witness:
  "roles (person ''h3'') = [] \<and>
   fst (openAllOpenableQueues 100 (person ''h3'') (community True False)) =
     Inl (ServerError (''It seems like you don't have any class roles.'' @ [CHR 0x0A] @
            ''This might be a human error. '' @
            ''In the meantime, you can help students through DMs.'')) \<and>
   map queueName (queues (community False False)) = map snd (roles (staff None)) \<and>
   fst (openAllOpenableQueues 100 (staff None) (community False False)) = Inr () \<and>
   map isOpen (queues (snd (openAllOpenableQueues 100 (staff None) (community False False)))) =
     [True, True] \<and>
   fst (openAllOpenableQueues 100 (staff None) (community True False)) =
     Inl (ServerError ''You are already hosting.'') \<and>
   queues (snd (openAllOpenableQueues 100 (staff None) (community True False))) =
     [mathQueue True, snd (openQueue_helper 100 (staff None) (physicsQueue False))]"
  using openAllOpenableQueues_all_or_error [of "community True False" "person ''h3''" 100]
    openAllOpenableQueues_all_or_error [of "community False False" "staff None" 100]
    openAllOpenableQueues_all_or_error [of "community True False" "staff None" 100]
  by (simp add: community_def mathQueue_def physicsQueue_def staff_def person_def
        openQueue_helper_def)

text \<open>
  The claim as stated fails when Math is already open and Physics is closed: Physics is
  opened, but the call as a whole is rejected instead of skipping Math.
\<close>

theorem openAllOpenableQueues_counterexample:
  "isOpen (mathQueue True) \<and> \<not> isOpen (physicsQueue False) \<and>
   fst (openAllOpenableQueues 100 (staff None)
          \<lparr>queues = [physicsQueue False, mathQueue True]\<rparr>) =
     Inl (ServerError ''You are already hosting.'') \<and>
   map isOpen (queues (snd (openAllOpenableQueues 100 (staff None)
          \<lparr>queues = [physicsQueue False, mathQueue True]\<rparr>))) = [True, True]"
  by (simp add: openAllOpenableQueues_def openQueue_helper_def mathQueue_def physicsQueue_def
        staff_def)

text \<open>
  C7. The helper closes Math, hosted since 50, and Physics, hosted since 10, at time 100.
  The session returned is the Math one, 50 long, although the Physics session closed by
  the same call is 90 long: the fold compares the end of the one session with the start of
  the other, not the two durations.
\<close>

theorem closeAllClosableQueues_returns_shorter_session:
  "fst (closeAllClosableQueues 100 (staff None) (community True True)) =
     Inr \<lparr>helpStart = 50, helpEnd = 100, helpedMembers = [], member = staff None\<rparr> \<and>
   fst (closeQueue_helper 100 (staff None) (physicsQueue True)) =
     Inr \<lparr>helpStart = 10, helpEnd = 100, helpedMembers = [], member = staff None\<rparr> \<and>
   map isOpen (queues (snd (closeAllClosableQueues 100 (staff None) (community True True)))) =
     [False, False]"
  by (simp add: closeAllClosableQueues_def closeQueue_helper_def reduce_def longerHelpTime_def
        community_def mathQueue_def physicsQueue_def staff_def session_def)

section \<open>Announcements\<close>

text \<open>
  C9. The helper, hosting Math and Physics, announces to the Math queue. Alice, who
  waits in Math, gets the announcement, and then the message goes out once more to
  everybody waiting in any queue the helper hosts: to Alice again, and to Bob and Carol,
  who wait in Physics.
\<close>

theorem announceToStudentsInQueue_scoped_reaches_other_queues:
  "announceToStudentsInQueue (staff None) ''break'' (Some ''Math'') (community True True) =
     Inr [(person ''alice'',
           SimpleEmbed ''Staff member Hana announced: break'' (Some NeedName)
             (Some ''In queue: Math'')),
          (person ''alice'', SimpleEmbed ''break'' None None),
          (person ''bob'', SimpleEmbed ''break'' None None),
          (person ''carol'', SimpleEmbed ''break'' None None)]"
  by (simp add: announceToStudentsInQueue_def community_def mathQueue_def physicsQueue_def
        staff_def waiting_def)

end
